theory Spec2Isabelle
  imports Complex_Main "HOL-Library.AList"
begin

section \<open>Region selection (src/app/api/session/route.ts)\<close>

text \<open>
  The type \<open>BrowserbaseRegion\<close> of the source is a union of four string literals.
\<close>

datatype BrowserbaseRegion = us_west_2 | us_east_1 | eu_central_1 | ap_southeast_1

text \<open>
  \<open>exactTimezoneMap\<close> and \<open>prefixToRegion\<close> are plain object literals. The source tests
  membership with the \<open>in\<close> operator and reads with \<open>obj[key]\<close>; both follow the
  prototype chain, and the prototype of an object literal is \<open>Object.prototype\<close>. An
  object is therefore modelled by the association list of its own properties together
  with the property names every object literal inherits.
\<close>

datatype js_value = RegionV BrowserbaseRegion | Inherited string | Undefined

definition Object_prototype_keys :: "string list" where
  "Object_prototype_keys =
     [''constructor'', ''__defineGetter__'', ''__defineSetter__'', ''hasOwnProperty'',
      ''__lookupGetter__'', ''__lookupSetter__'', ''isPrototypeOf'',
      ''propertyIsEnumerable'', ''toString'', ''valueOf'', ''__proto__'',
      ''toLocaleString'']"

definition js_in :: "string \<Rightarrow> (string \<times> BrowserbaseRegion) list \<Rightarrow> bool" where
  "js_in k obj = (k \<in> set (map fst obj) \<or> k \<in> set Object_prototype_keys)"

definition js_get :: "(string \<times> BrowserbaseRegion) list \<Rightarrow> string \<Rightarrow> js_value" where
  "js_get obj k =
     (case map_of obj k of
        Some r \<Rightarrow> RegionV r
      | None \<Rightarrow> if k \<in> set Object_prototype_keys then Inherited k else Undefined)"

definition exactTimezoneMap :: "(string \<times> BrowserbaseRegion) list" where
  "exactTimezoneMap =
     [(''America/New_York'', us_east_1),
      (''America/Detroit'', us_east_1),
      (''America/Toronto'', us_east_1),
      (''America/Montreal'', us_east_1),
      (''America/Boston'', us_east_1),
      (''America/Chicago'', us_east_1)]"

definition prefixToRegion :: "(string \<times> BrowserbaseRegion) list" where
  "prefixToRegion =
     [(''America'', us_west_2),
      (''US'', us_west_2),
      (''Canada'', us_west_2),
      (''Europe'', eu_central_1),
      (''Africa'', eu_central_1),
      (''Asia'', ap_southeast_1),
      (''Australia'', ap_southeast_1),
      (''Pacific'', ap_southeast_1)]"

text \<open>
  A JavaScript number that comes out of \<open>(testDate.getTime() - date.getTime()) / 3600000\<close>
  is either \<open>NaN\<close> (an invalid date) or a finite double. Every finite double is a
  rational, and \<open>>=\<close>, \<open><=\<close> against the integer bounds of the table are exact, so
  the finite case is a \<open>rat\<close>. Every comparison with \<open>NaN\<close> is false.
\<close>

datatype js_number = NaN | Num rat

fun js_ge :: "js_number \<Rightarrow> js_number \<Rightarrow> bool" where
  "js_ge (Num a) (Num b) = (a \<ge> b)"
| "js_ge _ _ = False"

fun js_le :: "js_number \<Rightarrow> js_number \<Rightarrow> bool" where
  "js_le (Num a) (Num b) = (a \<le> b)"
| "js_le _ _ = False"

record offset_range =
  min_bound :: js_number
  max_bound :: js_number
  region :: BrowserbaseRegion

definition offsetRanges :: "offset_range list" where
  "offsetRanges =
     [\<lparr>min_bound = Num (-24), max_bound = Num (-4), region = us_west_2\<rparr>,
      \<lparr>min_bound = Num (-3), max_bound = Num 4, region = eu_central_1\<rparr>,
      \<lparr>min_bound = Num 5, max_bound = Num 24, region = ap_southeast_1\<rparr>]"

text \<open>The predicate handed to \<open>offsetRanges.find\<close>.\<close>

definition range_matches :: "js_number \<Rightarrow> offset_range \<Rightarrow> bool" where
  "range_matches hourOffset rng =
     (js_ge hourOffset (min_bound rng) \<and> js_le hourOffset (max_bound rng))"

text \<open>\<open>timezone.split("/")[0]\<close>: the text before the first slash, all of it when there is none.\<close>

definition split_first :: "string \<Rightarrow> string" where
  "split_first timezone = takeWhile (\<lambda>c. c \<noteq> CHR ''/'') timezone"

text \<open>
  What is thrown is a value; the model keeps its message. The offset itself comes from the
  clock and from \<open>Intl.DateTimeFormat\<close>, which throws a RangeError on a time zone it does
  not know: both are the environment, a function from the time zone to what the four lines
  computing \<open>hourOffset\<close> produce.
\<close>

datatype exn = Exn string

type_synonym intl = "string \<Rightarrow> exn + js_number"

text \<open>The body of the \<open>try\<close> block, then the function with its \<open>catch\<close>.\<close>

definition getClosestRegion_try :: "intl \<Rightarrow> string option \<Rightarrow> exn + js_value" where
  "getClosestRegion_try hourOffsetOf timezone =
     (case timezone of
        None \<Rightarrow> Inr (RegionV us_west_2)
      | Some tz \<Rightarrow>
          if tz = [] then Inr (RegionV us_west_2)
          else if js_in tz exactTimezoneMap then Inr (js_get exactTimezoneMap tz)
          else
            let prefix = split_first tz in
            if js_in prefix prefixToRegion then Inr (js_get prefixToRegion prefix)
            else
              (case hourOffsetOf tz of
                 Inl e \<Rightarrow> Inl e
               | Inr hourOffset \<Rightarrow>
                   (case find (range_matches hourOffset) offsetRanges of
                      Some matchingRange \<Rightarrow> Inr (RegionV (region matchingRange))
                    | None \<Rightarrow> Inr (RegionV us_west_2))))"

definition getClosestRegion :: "intl \<Rightarrow> string option \<Rightarrow> js_value" where
  "getClosestRegion hourOffsetOf timezone =
     (case getClosestRegion_try hourOffsetOf timezone of
        Inl e \<Rightarrow> RegionV us_west_2
      | Inr v \<Rightarrow> v)"

section \<open>The session registry (src/unnamed/part_000, imported as \<open>../stagehandManager\<close>)\<close>

text \<open>
  A \<open>Stagehand\<close> object is what \<open>new Stagehand({browserbaseSessionID, env})\<close> builds. Two
  objects are different objects even when their fields agree, so each carries the number
  of objects allocated before it.
\<close>

datatype stagehand_env = LOCAL | BROWSERBASE

record Stagehand =
  ident :: nat
  browserbaseSessionID :: string
  env :: stagehand_env

text \<open>
  Everything the server asks of the Stagehand library, of the language model and of the
  Browserbase API is a call; what a call answers (a value, or an exception) is the
  environment's choice, given the calls made before it. The server records the calls it
  makes, in order. The two structured answers of the language model (a starting URL with
  its reasoning, a next step) have answer functions of their own. When several calls have
  been started and are awaited together, the order in which they settle is the
  environment's too: \<open>settles\<close> lists positions among the started calls.

  The \<open>method\<close> of \<open>runStagehand\<close> ranges over nine names; a \<open>Step\<close> of the
  source takes its \<open>tool\<close> from the same names without \<open>SCREENSHOT\<close>.
\<close>

datatype tool = GOTO | ACT | EXTRACT | OBSERVE | CLOSE | WAIT | NAVBACK | USER_INPUT | SCREENSHOT

record Step =
  step_text :: string
  reasoning :: string
  tool :: tool
  instruction :: string

datatype call =
    New Stagehand
  | Init Stagehand
  | Close Stagehand
  | Page_goto Stagehand "string option"
  | Page_act Stagehand "string option"
  | Page_extract Stagehand "string option"
  | Page_observe Stagehand "string option"
  | Page_goBack Stagehand
  | Page_newCDPSession Stagehand
  | Cdp_captureScreenshot Stagehand
  | Page_url Stagehand
  | Sessions_update_REQUEST_RELEASE string
  | Generate_url string
  | Generate_step string "Step list" string "string option"

datatype console_line =
    Log_created string
  | Log_closed string
  | Error_closing string exn
  | Log_all_closed
  | Log_local_cleaned
  | Error_local_clean exn
  | Error_executing_step exn
  | Error_agent_endpoint exn
  | Error_page_info exn

record world =
  respond :: "call list \<Rightarrow> call \<Rightarrow> exn + string"
  answer_url :: "call list \<Rightarrow> string \<Rightarrow> exn + string \<times> string"
  answer_step :: "call list \<Rightarrow> string \<Rightarrow> Step list \<Rightarrow> string \<Rightarrow> string option \<Rightarrow> exn + Step"
  settles :: "call list \<Rightarrow> nat list"
  USE_LOCAL_MODE :: "string option"
  BROWSERBASE_API_KEY :: "string option"

text \<open>
  \<open>stagehandInstances\<close> is a JavaScript \<open>Map\<close>: it keeps its entries in insertion order,
  \<open>set\<close> on a key it has replaces the value in place, \<open>delete\<close> drops the entry. That is
  an association list with \<open>AList.update\<close> and \<open>AList.delete\<close>; \<open>get\<close> is \<open>map_of\<close>.
\<close>

record server =
  stagehandInstances :: "(string \<times> Stagehand) list"
  allocated :: nat
  calls :: "call list"
  console :: "console_line list"

definition perform :: "world \<Rightarrow> call \<Rightarrow> server \<Rightarrow> (exn + string) \<times> server" where
  "perform w c s = (respond w (calls s) c, s\<lparr>calls := calls s @ [c]\<rparr>)"

definition new_Stagehand :: "world \<Rightarrow> string \<Rightarrow> server \<Rightarrow> Stagehand" where
  "new_Stagehand w sessionID s =
     \<lparr>ident = allocated s, browserbaseSessionID = sessionID,
      env = (if USE_LOCAL_MODE w = Some ''true'' then LOCAL else BROWSERBASE)\<rparr>"

text \<open>
  \<open>getStagehandInstance\<close> is an async function with one \<open>await\<close>, on \<open>stagehand.init()\<close>.
  What runs between two awaits runs without interruption; at the await other code may run.
  The function is therefore two pieces: the one up to the await, which either settles the
  call or leaves it pending on the started initialisation, and the one after it.
\<close>

datatype pending_init = Pending_init string Stagehand "exn + string"

definition getStagehandInstance_start ::
    "world \<Rightarrow> string \<Rightarrow> server \<Rightarrow> ((exn + Stagehand) + pending_init) \<times> server" where
  "getStagehandInstance_start w sessionID s =
     (case map_of (stagehandInstances s) sessionID of
        Some stagehand \<Rightarrow> (Inl (Inr stagehand), s)
      | None \<Rightarrow>
          let stagehand = new_Stagehand w sessionID s;
              (constructed, s1) = perform w (New stagehand) (s\<lparr>allocated := Suc (allocated s)\<rparr>)
          in (case constructed of
                Inl e \<Rightarrow> (Inl (Inl e), s1)
              | Inr _ \<Rightarrow>
                  let (initialised, s2) = perform w (Init stagehand) s1
                  in (Inr (Pending_init sessionID stagehand initialised), s2)))"

fun getStagehandInstance_resume :: "pending_init \<Rightarrow> server \<Rightarrow> (exn + Stagehand) \<times> server" where
  "getStagehandInstance_resume (Pending_init sessionID stagehand (Inl e)) s = (Inl e, s)"
| "getStagehandInstance_resume (Pending_init sessionID stagehand (Inr _)) s =
     (Inr stagehand,
      s\<lparr>stagehandInstances := AList.update sessionID stagehand (stagehandInstances s),
        console := console s @ [Log_created sessionID]\<rparr>)"

text \<open>A call that nothing interleaves with: the second piece runs right after the first.\<close>

definition getStagehandInstance :: "world \<Rightarrow> string \<Rightarrow> server \<Rightarrow> (exn + Stagehand) \<times> server" where
  "getStagehandInstance w sessionID s =
     (case getStagehandInstance_start w sessionID s of
        (Inl settled, s1) \<Rightarrow> (settled, s1)
      | (Inr pending, s1) \<Rightarrow> getStagehandInstance_resume pending s1)"

text \<open>
  Calls that overlap: each call is a task, and a schedule names, step by step, the task
  whose next piece runs.
\<close>

datatype acquire_task = Called string | Awaiting pending_init | Settled "exn + Stagehand"

fun acquire_step :: "world \<Rightarrow> acquire_task \<Rightarrow> server \<Rightarrow> acquire_task \<times> server" where
  "acquire_step w (Called sessionID) s =
     (case getStagehandInstance_start w sessionID s of
        (Inl settled, s1) \<Rightarrow> (Settled settled, s1)
      | (Inr pending, s1) \<Rightarrow> (Awaiting pending, s1))"
| "acquire_step w (Awaiting pending) s =
     (case getStagehandInstance_resume pending s of (settled, s1) \<Rightarrow> (Settled settled, s1))"
| "acquire_step w (Settled r) s = (Settled r, s)"

fun run_schedule ::
    "world \<Rightarrow> nat list \<Rightarrow> acquire_task list \<Rightarrow> server \<Rightarrow> acquire_task list \<times> server" where
  "run_schedule w [] tasks s = (tasks, s)"
| "run_schedule w (i # schedule) tasks s =
     (if i < length tasks
      then (case acquire_step w (tasks ! i) s of
              (t, s1) \<Rightarrow> run_schedule w schedule (tasks[i := t]) s1)
      else run_schedule w schedule tasks s)"

text \<open>Calls made one after the other, each awaited before the next is made.\<close>

fun acquire_sequentially ::
    "world \<Rightarrow> string \<Rightarrow> nat \<Rightarrow> server \<Rightarrow> (exn + Stagehand) list \<times> server" where
  "acquire_sequentially w sessionID 0 s = ([], s)"
| "acquire_sequentially w sessionID (Suc n) s =
     (case getStagehandInstance w sessionID s of
        (r, s1) \<Rightarrow>
          (case acquire_sequentially w sessionID n s1 of (rs, s2) \<Rightarrow> (r # rs, s2)))"

text \<open>
  \<open>closeStagehandInstance\<close>: the \<open>delete\<close> and the log line stand after the awaited
  \<open>close()\<close> inside the \<open>try\<close>, so an exception of \<open>close()\<close> skips them; the \<open>catch\<close>
  logs and the function returns normally.
\<close>

definition closeStagehandInstance :: "world \<Rightarrow> string \<Rightarrow> server \<Rightarrow> (exn + unit) \<times> server" where
  "closeStagehandInstance w sessionID s =
     (case map_of (stagehandInstances s) sessionID of
        None \<Rightarrow> (Inr (), s)
      | Some stagehand \<Rightarrow>
          (case perform w (Close stagehand) s of
             (Inr _, s1) \<Rightarrow>
               (Inr (),
                s1\<lparr>stagehandInstances := AList.delete sessionID (stagehandInstances s1),
                   console := console s1 @ [Log_closed sessionID]\<rparr>)
           | (Inl error, s1) \<Rightarrow>
               (Inr (), s1\<lparr>console := console s1 @ [Error_closing sessionID error]\<rparr>)))"

text \<open>
  \<open>closeAllStagehandInstances\<close>: the loop calls \<open>close()\<close> on every entry, in the order
  of the map, before anything is awaited; each promise has its own \<open>then\<close>, which logs the
  success, and its own \<open>catch\<close>, which logs the failure, so the log lines appear in the
  order in which the promises settle. After all of them the map is cleared. The positions
  the environment lists come first, in its order, and the entries it does not list follow
  in the order of the map, so that every entry is logged exactly once.
\<close>

fun start_closes ::
    "world \<Rightarrow> (string \<times> Stagehand) list \<Rightarrow> server \<Rightarrow> (string \<times> (exn + string)) list \<times> server" where
  "start_closes w [] s = ([], s)"
| "start_closes w ((sessionID, stagehand) # entries) s =
     (case perform w (Close stagehand) s of
        (outcome, s1) \<Rightarrow>
          (case start_closes w entries s1 of
             (outcomes, s2) \<Rightarrow> ((sessionID, outcome) # outcomes, s2)))"

fun settled_line :: "string \<times> (exn + string) \<Rightarrow> console_line" where
  "settled_line (sessionID, Inr _) = Log_closed sessionID"
| "settled_line (sessionID, Inl error) = Error_closing sessionID error"

definition settle_order :: "nat list \<Rightarrow> nat \<Rightarrow> nat list" where
  "settle_order listed n =
     filter (\<lambda>i. i < n) (remdups listed) @ filter (\<lambda>i. i \<notin> set listed) [0..<n]"

definition closeAllStagehandInstances :: "world \<Rightarrow> server \<Rightarrow> (exn + unit) \<times> server" where
  "closeAllStagehandInstances w s =
     (case start_closes w (stagehandInstances s) s of
        (outcomes, s1) \<Rightarrow>
          let order = settle_order (settles w (calls s1)) (length outcomes);
              logged = map (\<lambda>i. settled_line (outcomes ! i)) order
          in (Inr (),
              s1\<lparr>stagehandInstances := [],
                 console := console s1 @ logged @ [Log_all_closed]\<rparr>))"

section \<open>The step executor and the agent endpoint (the route in src/app/page.tsx)\<close>

text \<open>
  The two texts the source writes in Chinese, as their UTF-8 bytes: the message of a
  \<open>USER_INPUT\<close> step that gives none ("please handle the captcha or the login"), and
  the words before the URL in the first step's text ("navigate to").
\<close>

definition default_user_input_message :: string where
  "default_user_input_message =
     map char_of [232, 175, 183, 229, 164, 132, 231, 144, 134, 233, 170, 140, 232, 175, 129,
       231, 160, 129, 230, 136, 150, 231, 153, 187, 229, 189, 149, 228, 191, 161, 230, 129,
       175 :: nat]"

definition navigate_to :: string where
  "navigate_to = map char_of [229, 175, 188, 232, 136, 170, 232, 135, 179, 32 :: nat]"

text \<open>\<open>a || b\<close> on a string that may be missing: the empty string and \<open>undefined\<close> are falsy.\<close>

fun js_or :: "string option \<Rightarrow> string \<Rightarrow> string" where
  "js_or None b = b"
| "js_or (Some a) b = (if a = [] then b else a)"


datatype js_result = Undef | Json string | Waiting_for_user string

text \<open>The \<open>switch\<close> inside the \<open>try\<close> of \<open>runStagehand\<close>, one equation for each \<open>case\<close>.\<close>

definition page_call :: "world \<Rightarrow> call \<Rightarrow> (string \<Rightarrow> js_result) \<Rightarrow> server \<Rightarrow> (exn + js_result) \<times> server" where
  "page_call w c ret s =
     (case perform w c s of
        (Inl error, s1) \<Rightarrow> (Inl error, s1)
      | (Inr v, s1) \<Rightarrow> (Inr (ret v), s1))"

fun runStagehand_switch ::
    "world \<Rightarrow> string \<Rightarrow> Stagehand \<Rightarrow> tool \<Rightarrow> string option \<Rightarrow> server \<Rightarrow> (exn + js_result) \<times> server" where
  "runStagehand_switch w sessionID stagehand GOTO instr s =
     page_call w (Page_goto stagehand instr) (\<lambda>_. Undef) s"
| "runStagehand_switch w sessionID stagehand ACT instr s =
     page_call w (Page_act stagehand instr) (\<lambda>_. Undef) s"
| "runStagehand_switch w sessionID stagehand EXTRACT instr s =
     page_call w (Page_extract stagehand instr) Json s"
| "runStagehand_switch w sessionID stagehand OBSERVE instr s =
     page_call w (Page_observe stagehand instr) Json s"
| "runStagehand_switch w sessionID stagehand CLOSE instr s =
     (case closeStagehandInstance w sessionID s of
        (Inl error, s1) \<Rightarrow> (Inl error, s1)
      | (Inr _, s1) \<Rightarrow> (Inr Undef, s1))"
| "runStagehand_switch w sessionID stagehand SCREENSHOT instr s =
     (case perform w (Page_newCDPSession stagehand) s of
        (Inl error, s1) \<Rightarrow> (Inl error, s1)
      | (Inr _, s1) \<Rightarrow> page_call w (Cdp_captureScreenshot stagehand) Json s1)"
| "runStagehand_switch w sessionID stagehand WAIT instr s = (Inr Undef, s)"
| "runStagehand_switch w sessionID stagehand NAVBACK instr s =
     page_call w (Page_goBack stagehand) (\<lambda>_. Undef) s"
| "runStagehand_switch w sessionID stagehand USER_INPUT instr s =
     (Inr (Waiting_for_user (js_or instr default_user_input_message)), s)"

text \<open>
  \<open>runStagehand\<close>: the instance is fetched before the \<open>try\<close>; the \<open>catch\<close> awaits
  \<open>closeStagehandInstance\<close> and throws the error it caught.
\<close>

definition runStagehand ::
    "world \<Rightarrow> string \<Rightarrow> tool \<Rightarrow> string option \<Rightarrow> server \<Rightarrow> (exn + js_result) \<times> server" where
  "runStagehand w sessionID method instr s =
     (case getStagehandInstance w sessionID s of
        (Inl e, s1) \<Rightarrow> (Inl e, s1)
      | (Inr stagehand, s1) \<Rightarrow>
          (case runStagehand_switch w sessionID stagehand method instr s1 of
             (Inr v, s2) \<Rightarrow> (Inr v, s2)
           | (Inl error, s2) \<Rightarrow>
               (case closeStagehandInstance w sessionID s2 of
                  (Inl e, s3) \<Rightarrow> (Inl e, s3)
                | (Inr _, s3) \<Rightarrow> (Inl error, s3))))"

text \<open>
  \<open>sendPrompt\<close>: the current URL is read inside a \<open>try\<close> whose \<open>catch\<close> only logs; a
  screenshot is taken when an earlier step was a \<open>GOTO\<close>; then the language model is asked.
  The prompt is built from the goal, the steps and the URL, which are what the model's
  answer function receives.
\<close>

definition current_url :: "world \<Rightarrow> string \<Rightarrow> server \<Rightarrow> string \<times> server" where
  "current_url w sessionID s =
     (case getStagehandInstance w sessionID s of
        (Inl error, s1) \<Rightarrow> ([], s1\<lparr>console := console s1 @ [Error_page_info error]\<rparr>)
      | (Inr stagehand, s1) \<Rightarrow>
          (case perform w (Page_url stagehand) s1 of
             (Inl error, s2) \<Rightarrow> ([], s2\<lparr>console := console s2 @ [Error_page_info error]\<rparr>)
           | (Inr url, s2) \<Rightarrow> (url, s2)))"

definition ask_model ::
    "world \<Rightarrow> string \<Rightarrow> Step list \<Rightarrow> string \<Rightarrow> string option \<Rightarrow> server \<Rightarrow> (exn + Step \<times> Step list) \<times> server" where
  "ask_model w goal previousSteps currentUrl screenshot s =
     (let c = Generate_step goal previousSteps currentUrl screenshot;
          s1 = s\<lparr>calls := calls s @ [c]\<rparr>
      in (case answer_step w (calls s) goal previousSteps currentUrl screenshot of
            Inl error \<Rightarrow> (Inl error, s1)
          | Inr result \<Rightarrow> (Inr (result, previousSteps @ [result]), s1)))"

definition sendPrompt ::
    "world \<Rightarrow> string \<Rightarrow> string \<Rightarrow> Step list \<Rightarrow> server \<Rightarrow> (exn + Step \<times> Step list) \<times> server" where
  "sendPrompt w goal sessionID previousSteps s =
     (case current_url w sessionID s of
        (currentUrl, s1) \<Rightarrow>
          if previousSteps \<noteq> [] \<and> (\<exists>step \<in> set previousSteps. tool step = GOTO)
          then (case runStagehand w sessionID SCREENSHOT None s1 of
                  (Inl error, s2) \<Rightarrow> (Inl error, s2)
                | (Inr (Json data), s2) \<Rightarrow> ask_model w goal previousSteps currentUrl (Some data) s2
                | (Inr _, s2) \<Rightarrow> ask_model w goal previousSteps currentUrl None s2)
          else ask_model w goal previousSteps currentUrl None s1)"

definition selectStartingUrl :: "world \<Rightarrow> string \<Rightarrow> server \<Rightarrow> (exn + string \<times> string) \<times> server" where
  "selectStartingUrl w goal s =
     (answer_url w (calls s) goal, s\<lparr>calls := calls s @ [Generate_url goal]\<rparr>)"

text \<open>
  The request body of the agent endpoint (\<open>goal\<close>, \<open>sessionId\<close>, \<open>previousSteps\<close>,
  \<open>action\<close>, \<open>step\<close>; a field may be missing), and its JSON answers.
\<close>

record agent_body =
  body_goal :: "string option"
  body_sessionId :: "string option"
  body_previousSteps :: "Step list option"
  body_action :: "string option"
  body_step :: "Step option"

datatype agent_response =
    Missing_sessionId
  | Missing_goal
  | Missing_step
  | Invalid_action
  | Start_ok Step "Step list"
  | Next_ok Step "Step list" bool
  | User_input_ok string
  | Execute_ok js_result bool
  | Execute_failed exn
  | Request_failed

definition request_failed :: "exn \<Rightarrow> server \<Rightarrow> agent_response \<times> server" where
  "request_failed error s = (Request_failed, s\<lparr>console := console s @ [Error_agent_endpoint error]\<rparr>)"

definition POST_START :: "world \<Rightarrow> string option \<Rightarrow> string \<Rightarrow> server \<Rightarrow> agent_response \<times> server" where
  "POST_START w g sid s =
     (case g of
        None \<Rightarrow> (Missing_goal, s)
      | Some goal \<Rightarrow>
          if goal = [] then (Missing_goal, s)
          else
            (case selectStartingUrl w goal s of
               (Inl error, s1) \<Rightarrow> request_failed error s1
             | (Inr (url, why), s1) \<Rightarrow>
                 let firstStep = \<lparr>step_text = navigate_to @ url, reasoning = why,
                                  tool = GOTO, instruction = url\<rparr>
                 in (case runStagehand w sid GOTO (Some url) s1 of
                       (Inl error, s2) \<Rightarrow> request_failed error s2
                     | (Inr _, s2) \<Rightarrow> (Start_ok firstStep [firstStep], s2))))"

definition POST_GET_NEXT_STEP ::
    "world \<Rightarrow> string option \<Rightarrow> string \<Rightarrow> Step list option \<Rightarrow> server \<Rightarrow> agent_response \<times> server" where
  "POST_GET_NEXT_STEP w g sid prev s =
     (case g of
        None \<Rightarrow> (Missing_goal, s)
      | Some goal \<Rightarrow>
          if goal = [] then (Missing_goal, s)
          else
            (case sendPrompt w goal sid (case prev of None \<Rightarrow> [] | Some steps \<Rightarrow> steps) s of
               (Inl error, s1) \<Rightarrow> request_failed error s1
             | (Inr (result, newPreviousSteps), s1) \<Rightarrow>
                 (Next_ok result newPreviousSteps (tool result = CLOSE), s1)))"

definition POST_EXECUTE_STEP :: "world \<Rightarrow> string \<Rightarrow> Step option \<Rightarrow> server \<Rightarrow> agent_response \<times> server" where
  "POST_EXECUTE_STEP w sid st s =
     (case st of
        None \<Rightarrow> (Missing_step, s)
      | Some step \<Rightarrow>
          if tool step = USER_INPUT
          then (User_input_ok (js_or (Some (instruction step)) default_user_input_message), s)
          else
            (case runStagehand w sid (tool step) (Some (instruction step)) s of
               (Inr result, s1) \<Rightarrow> (Execute_ok result (tool step = CLOSE), s1)
             | (Inl error, s1) \<Rightarrow>
                 (Execute_failed error, s1\<lparr>console := console s1 @ [Error_executing_step error]\<rparr>)))"

definition POST_agent :: "world \<Rightarrow> agent_body \<Rightarrow> server \<Rightarrow> agent_response \<times> server" where
  "POST_agent w body s =
     (case body_sessionId body of
        None \<Rightarrow> (Missing_sessionId, s)
      | Some sid \<Rightarrow>
          if sid = [] then (Missing_sessionId, s)
          else if body_action body = Some ''START'' then POST_START w (body_goal body) sid s
          else if body_action body = Some ''GET_NEXT_STEP''
            then POST_GET_NEXT_STEP w (body_goal body) sid (body_previousSteps body) s
          else if body_action body = Some ''EXECUTE_STEP''
            then POST_EXECUTE_STEP w sid (body_step body) s
          else (Invalid_action, s))"





section \<open>The agent loop of the chat feed (\<open>initializeSession\<close> in src/unnamed/part_001)\<close>

text \<open>
  The browser side sees the server through \<open>fetch\<close> only. A request is recorded when it
  is sent; what comes back is the environment's choice, given the requests sent so far (the
  one being answered is the last of them). Of the JSON that comes back the loop reads
  \<open>success\<close>, \<open>result\<close>, \<open>done\<close>, \<open>message\<close> and \<open>sessionId\<close>. A \<open>fetch\<close> that
  rejects ends in the same \<open>catch\<close> as an answer without \<open>success\<close> and is modelled as
  such an answer. The session URL, the context identifier and the analytics calls take no
  part in the control flow and are left out.
\<close>

record BrowserStep = Step +
  stepNumber :: "nat option"

datatype request =
    Fetch_POST_session
  | Fetch_START string string
  | Fetch_GET_NEXT_STEP string string "BrowserStep list"
  | Fetch_EXECUTE_STEP string Step
  | Fetch_DELETE_session "string option"

record session_data =
  session_success :: bool
  session_id :: string

record start_data =
  start_success :: bool
  start_result :: Step

record next_step_data =
  next_success :: bool
  next_result :: Step
  next_done :: bool

record execute_data =
  execute_success :: bool
  execute_done :: bool
  execute_message :: "string option"

record api =
  session_response :: "request list \<Rightarrow> session_data"
  start_response :: "request list \<Rightarrow> start_data"
  next_response :: "request list \<Rightarrow> next_step_data"
  execute_response :: "request list \<Rightarrow> execute_data"

text \<open>
  The component's state: the ref \<open>agentStateRef\<close>, the state \<open>uiState\<close>, the flags, and
  the requests sent. \<open>effect_due\<close> says that \<open>uiState.steps\<close> or \<open>uiState.sessionId\<close>
  changed since the last render, so that the effect hook on them runs at the next one.
\<close>

record client =
  initializationRef :: bool
  isLoading :: bool
  isAgentFinished :: bool
  agent_sessionId :: "string option"
  agent_steps :: "BrowserStep list"
  ui_sessionId :: "string option"
  ui_steps :: "BrowserStep list"
  waitingForUserInput :: bool
  userInputMessage :: "string option"
  effect_due :: bool
  fetches :: "request list"

text \<open>
  The effect hook on \<open>[uiState.sessionId, uiState.steps]\<close>: when the last step shown is a
  \<open>CLOSE\<close>, the agent is marked finished and the session route is sent a \<open>DELETE\<close>.
  React runs it after the render that follows a change, and a render happens while the
  async function waits: at each \<open>await\<close> and when it ends.
\<close>

definition steps_effect :: "client \<Rightarrow> client" where
  "steps_effect c =
     (if length (ui_steps c) > 0 \<and> tool (last (ui_steps c)) = CLOSE
      then c\<lparr>isAgentFinished := True,
             fetches := fetches c @ [Fetch_DELETE_session (ui_sessionId c)]\<rparr>
      else c)"

definition render :: "client \<Rightarrow> client" where
  "render c = (if effect_due c then steps_effect (c\<lparr>effect_due := False\<rparr>) else c)"

definition fetch :: "request \<Rightarrow> client \<Rightarrow> client" where
  "fetch req c = render (c\<lparr>fetches := fetches c @ [req]\<rparr>)"

definition set_steps :: "BrowserStep list \<Rightarrow> client \<Rightarrow> client" where
  "set_steps steps c = c\<lparr>agent_steps := steps, ui_steps := steps, effect_due := True\<rparr>"

definition numbered :: "Step \<Rightarrow> nat \<Rightarrow> BrowserStep" where
  "numbered result n =
     \<lparr>step_text = step_text result, reasoning = reasoning result, tool = tool result,
      instruction = instruction result, stepNumber = Some n\<rparr>"

text \<open>
  How a run of the function stands when it stops running: it returned before the \<open>try\<close>;
  the \<open>try\<close> block ran to its end (the loop was left by \<open>break\<close>, or the start request
  was answered without success and the loop was not entered); an error was thrown and
  caught; it waits for the user (holding \<open>executeData.done\<close> for when it goes on); or
  the fuel ran out.
\<close>

datatype exit = Return | Break | Throw | Suspend bool | Out_of_fuel

text \<open>The \<open>while (true)\<close> loop; the fuel bounds the number of iterations.\<close>

fun agent_loop :: "nat \<Rightarrow> api \<Rightarrow> string \<Rightarrow> string \<Rightarrow> client \<Rightarrow> exit \<times> client" where
  "agent_loop 0 backend goal sid c = (Out_of_fuel, c)"
| "agent_loop (Suc n) backend goal sid c =
     (let c1 = fetch (Fetch_GET_NEXT_STEP goal sid (agent_steps c)) c;
          nextStepData = next_response backend (fetches c1)
      in if \<not> next_success nextStepData then (Throw, c1)
         else
           let nextStep = numbered (next_result nextStepData) (length (agent_steps c1) + 1);
               c2 = set_steps (agent_steps c1 @ [nextStep]) c1
           in if next_done nextStepData \<or> tool (next_result nextStepData) = CLOSE
              then (Break, c2)
              else
                let c3 = fetch (Fetch_EXECUTE_STEP sid (next_result nextStepData)) c2;
                    executeData = execute_response backend (fetches c3)
                in if \<not> execute_success executeData then (Throw, c3)
                   else if tool (next_result nextStepData) = USER_INPUT
                   then (Suspend (execute_done executeData),
                         render (c3\<lparr>waitingForUserInput := True,
                                   userInputMessage :=
                                     Some (js_or (execute_message executeData)
                                             default_user_input_message)\<rparr>))
                   else if execute_done executeData then (Break, c3)
                   else agent_loop n backend goal sid c3)"

text \<open>The \<open>catch\<close> only logs; the \<open>finally\<close> clears \<open>isLoading\<close>; then the function ends.\<close>

fun finish :: "exit \<times> client \<Rightarrow> exit \<times> client" where
  "finish (Break, c) = (Break, render (c\<lparr>isLoading := False\<rparr>))"
| "finish (Throw, c) = (Throw, render (c\<lparr>isLoading := False\<rparr>))"
| "finish (e, c) = (e, c)"


text \<open>
  \<open>window.continueAfterUserInput\<close>, the closure stored while the loop waits: it clears the
  waiting flag and resolves the promise, and the loop goes on after its \<open>await\<close>, first
  with \<open>if (executeData.done) break\<close>.
\<close>

definition continueAfterUserInput ::
    "nat \<Rightarrow> api \<Rightarrow> string \<Rightarrow> string \<Rightarrow> bool \<Rightarrow> client \<Rightarrow> exit \<times> client" where
  "continueAfterUserInput n backend goal sid executeDone c =
     (let c1 = c\<lparr>waitingForUserInput := False\<rparr>
      in finish (if executeDone then (Break, c1) else agent_loop n backend goal sid c1))"


section \<open>Concrete environments\<close>

text \<open>
  Environments and states at which the theorems below are instantiated: a world in which
  every call succeeds, one whose browser has crashed (every page call and \<open>close()\<close>
  throws), one whose browser cannot be launched (\<open>init()\<close> throws), the server before any
  request, and the server that tracks one local session.
\<close>

definition quiet_world :: world where
  "quiet_world =
     \<lparr>respond = (\<lambda>_ _. Inr []),
      answer_url = (\<lambda>_ _. Inl (Exn ''no model'')),
      answer_step = (\<lambda>_ _ _ _ _. Inl (Exn ''no model'')),
      settles = (\<lambda>_. []),
      USE_LOCAL_MODE = Some ''true'', BROWSERBASE_API_KEY = None\<rparr>"

definition crashed_browser :: world where
  "crashed_browser =
     \<lparr>respond = (\<lambda>_ c. case c of New _ \<Rightarrow> Inr [] | Init _ \<Rightarrow> Inr []
                          | _ \<Rightarrow> Inl (Exn ''Target closed'')),
      answer_url = (\<lambda>_ _. Inl (Exn ''no model'')),
      answer_step = (\<lambda>_ _ _ _ _. Inl (Exn ''no model'')),
      settles = (\<lambda>_. []),
      USE_LOCAL_MODE = Some ''true'', BROWSERBASE_API_KEY = None\<rparr>"

definition no_browser :: world where
  "no_browser =
     \<lparr>respond = (\<lambda>_ c. case c of New _ \<Rightarrow> Inr [] | _ \<Rightarrow> Inl (Exn ''launch failed'')),
      answer_url = (\<lambda>_ _. Inl (Exn ''no model'')),
      answer_step = (\<lambda>_ _ _ _ _. Inl (Exn ''no model'')),
      settles = (\<lambda>_. []),
      USE_LOCAL_MODE = Some ''true'', BROWSERBASE_API_KEY = None\<rparr>"

definition empty_server :: server where
  "empty_server = \<lparr>stagehandInstances = [], allocated = 0, calls = [], console = []\<rparr>"

definition local_stagehand :: "nat \<Rightarrow> string \<Rightarrow> Stagehand" where
  "local_stagehand n sid = \<lparr>ident = n, browserbaseSessionID = sid, env = LOCAL\<rparr>"

definition tracking :: "string \<Rightarrow> server" where
  "tracking sid =
     \<lparr>stagehandInstances = [(sid, local_stagehand 0 sid)], allocated = 1,
      calls = [New (local_stagehand 0 sid), Init (local_stagehand 0 sid)],
      console = [Log_created sid]\<rparr>"

text \<open>
  For the browser side: three steps the model may decide, a server whose first decision is
  \<open>CLOSE\<close>, a server whose first decision is \<open>USER_INPUT\<close> and whose next is \<open>CLOSE\<close>,
  and the component after the start request has been answered.
\<close>

definition goto_step :: Step where
  "goto_step = \<lparr>step_text = ''open the search engine'', reasoning = ''start from a search'',
                 tool = GOTO, instruction = ''https://example.com''\<rparr>"

definition close_step :: Step where
  "close_step = \<lparr>step_text = ''finish'', reasoning = ''the goal is reached'',
                  tool = CLOSE, instruction = []\<rparr>"

definition captcha_step :: Step where
  "captcha_step = \<lparr>step_text = ''captcha'', reasoning = ''a captcha is shown'',
                    tool = USER_INPUT, instruction = ''solve the captcha''\<rparr>"


definition captcha_api :: api where
  "captcha_api =
     \<lparr>session_response = (\<lambda>_. \<lparr>session_success = True, session_id = ''s1''\<rparr>),
      start_response = (\<lambda>_. \<lparr>start_success = True, start_result = goto_step\<rparr>),
      next_response =
        (\<lambda>sent. if length sent \<le> 3
                then \<lparr>next_success = True, next_result = captcha_step, next_done = False\<rparr>
                else \<lparr>next_success = True, next_result = close_step, next_done = True\<rparr>),
      execute_response =
        (\<lambda>_. \<lparr>execute_success = True, execute_done = False,
               execute_message = Some ''solve the captcha''\<rparr>)\<rparr>"

definition started_client :: client where
  "started_client =
     \<lparr>initializationRef = True, isLoading = True, isAgentFinished = False,
      agent_sessionId = Some ''s1'', agent_steps = [numbered goto_step 1],
      ui_sessionId = Some ''s1'', ui_steps = [numbered goto_step 1],
      waitingForUserInput = False, userInputMessage = None, effect_due = True,
      fetches = [Fetch_POST_session, Fetch_START ''price of stock X'' ''s1'']\<rparr>"







section \<open>Properties of region selection\<close>

text \<open>
  Claim C9. Each of the six time zones of the exact-match table (America/New_York,
  America/Detroit, America/Toronto, America/Montreal, America/Boston, America/Chicago) is
  sent to us-east-1, whatever the offset computation would give, although the prefix rule
  knows its prefix \<open>America\<close> and would send it to us-west-2: the exact rule comes first.
\<close>

theorem exact_timezone_takes_precedence:
  assumes "tz \<in> {''America/New_York'', ''America/Detroit'', ''America/Toronto'',
                 ''America/Montreal'', ''America/Boston'', ''America/Chicago''}"
  shows "getClosestRegion hourOffsetOf (Some tz) = RegionV us_east_1
         \<and> js_in (split_first tz) prefixToRegion
         \<and> js_get prefixToRegion (split_first tz) = RegionV us_west_2"
proof -
  have own: "map_of exactTimezoneMap tz = Some us_east_1"
    using assms by (auto simp: exactTimezoneMap_def)
  have ne: "tz \<noteq> []" using assms by auto
  have "js_in tz exactTimezoneMap"
    using own by (auto simp: js_in_def dest: map_of_SomeD intro: rev_image_eqI)
  moreover have "js_get exactTimezoneMap tz = RegionV us_east_1"
    using own by (simp add: js_get_def)
  ultimately have 1: "getClosestRegion hourOffsetOf (Some tz) = RegionV us_east_1"
    using ne by (simp add: getClosestRegion_def getClosestRegion_try_def)
  have pre: "split_first tz = ''America''"
    using assms by (auto simp: split_first_def)
  show ?thesis using 1 pre by (simp add: js_in_def js_get_def prefixToRegion_def)
qed

theorem exact_timezone_takes_precedence_witness:
  "getClosestRegion (\<lambda>tz. Inr (Num 9)) (Some ''America/New_York'') = RegionV us_east_1
   \<and> js_get prefixToRegion (split_first ''America/New_York'') = RegionV us_west_2"
  using exact_timezone_takes_precedence [of "''America/New_York''" "\<lambda>tz. Inr (Num 9)"] by simp

text \<open>
  Claim C1, as stated, asks that every offset between -24 and 24, whole or not, lies in
  exactly one of the three ranges. The bounds of the table are whole hours, so an offset of
  three and a half hours west lies in none of them (the source then falls back to its
  default region).
\<close>

theorem offsetRanges_gap_counterexample:
  "js_ge (Num (- 7 / 2)) (Num (- 24)) \<and> js_le (Num (- 7 / 2)) (Num 24)
   \<and> filter (range_matches (Num (- 7 / 2))) offsetRanges = []"
  by (simp add: range_matches_def offsetRanges_def)

text \<open>
  Claim C1, amended. Every offset \<open>x\<close> between -24 and 24 that is not strictly between -4
  and -3 nor strictly between 4 and 5 lies in exactly one range; so does every whole offset
  \<open>k\<close> between -24 and 24. No number \<open>y\<close> at all (whole, fractional or \<open>NaN\<close>) lies in
  two ranges, and the three ranges belong to three different regions. The boundary values
  fall where the claim says: -4 in us-west-2, -3 and 4 in eu-central-1, 5 in ap-southeast-1.
\<close>

theorem offsetRanges_cover_outside_gaps:
  "(- 24 \<le> x \<and> x \<le> 24 \<and> \<not> (- 4 < x \<and> x < - 3) \<and> \<not> (4 < x \<and> x < 5)
      \<longrightarrow> length (filter (range_matches (Num x)) offsetRanges) = 1)
   \<and> (- 24 \<le> k \<and> k \<le> 24
      \<longrightarrow> length (filter (range_matches (Num (of_int k))) offsetRanges) = 1)
   \<and> length (filter (range_matches y) offsetRanges) \<le> 1
   \<and> distinct (map region offsetRanges)
   \<and> map region (filter (range_matches (Num (- 4))) offsetRanges) = [us_west_2]
   \<and> map region (filter (range_matches (Num (- 3))) offsetRanges) = [eu_central_1]
   \<and> map region (filter (range_matches (Num 4)) offsetRanges) = [eu_central_1]
   \<and> map region (filter (range_matches (Num 5)) offsetRanges) = [ap_southeast_1]"
proof -
  have a: "- 24 \<le> x \<and> x \<le> 24 \<and> \<not> (- 4 < x \<and> x < - 3) \<and> \<not> (4 < x \<and> x < 5)
      \<longrightarrow> length (filter (range_matches (Num x)) offsetRanges) = 1"
    by (auto simp: range_matches_def offsetRanges_def)
  have lt: "((of_int i :: rat) < of_int j) = (i < j)" for i j :: int
    by (rule of_int_less_iff)
  have g1: "\<not> (- 4 < (of_int k :: rat) \<and> (of_int k :: rat) < - 3)"
    using lt [of "- 4" k] lt [of k "- 3"] by auto
  have g2: "\<not> (4 < (of_int k :: rat) \<and> (of_int k :: rat) < 5)"
    using lt [of 4 k] lt [of k 5] by auto
  have b: "- 24 \<le> k \<and> k \<le> 24
      \<longrightarrow> length (filter (range_matches (Num (of_int k))) offsetRanges) = 1"
    using g1 g2 by (auto simp: range_matches_def offsetRanges_def)
  have c: "length (filter (range_matches y) offsetRanges) \<le> 1"
    by (cases y) (auto simp: range_matches_def offsetRanges_def)
  have d: "distinct (map region offsetRanges)" by (simp add: offsetRanges_def)
  have e: "map region (filter (range_matches (Num (- 4))) offsetRanges) = [us_west_2]"
     "map region (filter (range_matches (Num (- 3))) offsetRanges) = [eu_central_1]"
     "map region (filter (range_matches (Num 4)) offsetRanges) = [eu_central_1]"
     "map region (filter (range_matches (Num 5)) offsetRanges) = [ap_southeast_1]"
    by (simp_all add: range_matches_def offsetRanges_def)
  show ?thesis using a b c d e by blast
qed

theorem offsetRanges_cover_witness:
  "length (filter (range_matches (Num (7 / 2))) offsetRanges) = 1
   \<and> length (filter (range_matches (Num (of_int (- 4)))) offsetRanges) = 1"
  using offsetRanges_cover_outside_gaps [of "7 / 2" "- 4"] by simp

text \<open>
  Claim C6 says that \<open>getClosestRegion\<close> returns one of the four regions for every time
  zone string. The \<open>in\<close> operator also finds the names an object literal inherits, so for
  the string \<open>toString\<close> the exact-match test succeeds and the function returns the
  inherited member of that name, which is no region; a string whose text before the first
  slash is such a name does the same in the prefix test.
\<close>

theorem getClosestRegion_inherited_name:
  "getClosestRegion hourOffsetOf (Some ''toString'') = Inherited ''toString''
   \<and> getClosestRegion hourOffsetOf (Some ''constructor/x'') = Inherited ''constructor''"
  by (simp add: getClosestRegion_def getClosestRegion_try_def js_in_def js_get_def
      exactTimezoneMap_def prefixToRegion_def Object_prototype_keys_def split_first_def)

text \<open>
  The rest of the claim holds: the function is total, an absent or empty time zone gives
  the default, and away from the inherited names the result is a region, also when the
  offset computation throws.
\<close>

lemma js_get_region_unless_inherited:
  "k \<notin> set Object_prototype_keys \<Longrightarrow> js_in k obj \<Longrightarrow> \<exists>r. js_get obj k = RegionV r"
  by (auto simp: js_in_def js_get_def map_of_eq_None_iff split: option.splits)

lemma getClosestRegion_region_unless_inherited:
  assumes "tz \<notin> set Object_prototype_keys" "split_first tz \<notin> set Object_prototype_keys"
  shows "\<exists>r. getClosestRegion hourOffsetOf (Some tz) = RegionV r"
  using assms js_get_region_unless_inherited [of tz exactTimezoneMap]
     js_get_region_unless_inherited [of "split_first tz" prefixToRegion]
  by (auto simp: getClosestRegion_def getClosestRegion_try_def Let_def
      split: sum.splits option.splits)

lemma getClosestRegion_absent:
  "getClosestRegion hourOffsetOf None = RegionV us_west_2"
  "getClosestRegion hourOffsetOf (Some []) = RegionV us_west_2"
  by (simp_all add: getClosestRegion_def getClosestRegion_try_def)

section \<open>Properties of the session registry\<close>

lemma tracking_reached:
  "getStagehandInstance quiet_world sid empty_server = (Inr (local_stagehand 0 sid), tracking sid)"
  by (simp add: getStagehandInstance_def getStagehandInstance_start_def quiet_world_def
      empty_server_def new_Stagehand_def perform_def tracking_def local_stagehand_def Let_def)

text \<open>
  Claim C2 says that \<open>closeStagehandInstance\<close> removes the entry also when \<open>close()\<close>
  fails. In the source the \<open>delete\<close> follows the awaited \<open>close()\<close> inside the \<open>try\<close>:
  when \<open>close()\<close> throws, the call is made and logged as failed, nothing is thrown to the
  caller, and the entry is still in the map.
\<close>

theorem closeStagehandInstance_keeps_entry_when_close_fails:
  assumes "map_of (stagehandInstances s) sid = Some h"
      and "respond w (calls s) (Close h) = Inl e"
  shows "closeStagehandInstance w sid s =
           (Inr (), s\<lparr>calls := calls s @ [Close h],
                      console := console s @ [Error_closing sid e]\<rparr>)
         \<and> map_of (stagehandInstances (snd (closeStagehandInstance w sid s))) sid = Some h"
  using assms by (simp add: closeStagehandInstance_def perform_def)

theorem closeStagehandInstance_keeps_entry_witness:
  "map_of (stagehandInstances (snd (closeStagehandInstance crashed_browser ''s1'' (tracking ''s1''))))
       ''s1''
     = Some (local_stagehand 0 ''s1'')
   \<and> fst (closeStagehandInstance crashed_browser ''s1'' (tracking ''s1'')) = Inr ()"
  using closeStagehandInstance_keeps_entry_when_close_fails
          [of "tracking ''s1''" "''s1''" "local_stagehand 0 ''s1''" crashed_browser
              "Exn ''Target closed''"]
  by (simp add: tracking_def crashed_browser_def)

text \<open>
  What does hold of release: it never throws, it removes the entry when \<open>close()\<close>
  succeeds, and the sibling \<open>closeAllStagehandInstances\<close> empties the map whatever the
  individual \<open>close()\<close> calls did.
\<close>

lemma closeStagehandInstance_removes_when_close_succeeds:
  assumes "map_of (stagehandInstances s) sid = Some h"
      and "respond w (calls s) (Close h) = Inr v"
  shows "closeStagehandInstance w sid s =
           (Inr (), s\<lparr>calls := calls s @ [Close h],
                      stagehandInstances := AList.delete sid (stagehandInstances s),
                      console := console s @ [Log_closed sid]\<rparr>)"
    and "map_of (stagehandInstances (snd (closeStagehandInstance w sid s))) sid = None"
  using assms by (simp_all add: closeStagehandInstance_def perform_def delete_conv')

lemma closeStagehandInstance_never_throws: "fst (closeStagehandInstance w sid s) = Inr ()"
  by (auto simp: closeStagehandInstance_def perform_def split: option.splits sum.splits prod.splits)

lemma closeStagehandInstance_unknown:
  "map_of (stagehandInstances s) sid = None \<Longrightarrow> closeStagehandInstance w sid s = (Inr (), s)"
  by (simp add: closeStagehandInstance_def)

lemma closeAllStagehandInstances_clears:
  "stagehandInstances (snd (closeAllStagehandInstances w s)) = []"
  by (simp add: closeAllStagehandInstances_def Let_def split: prod.splits)

lemma settle_order_is_permutation: "set (settle_order listed n) = {0..<n}"
  "distinct (settle_order listed n)"
  by (auto simp: settle_order_def)

text \<open>
  Claim C3 says that calls of \<open>getStagehandInstance\<close> that overlap provision once. The
  function looks the entry up before it awaits \<open>init()\<close> and stores it after; two calls
  for one identifier that both start before either initialisation ends each build and
  initialise an object of their own, receive different objects, and the second store
  replaces the first.
\<close>

theorem overlapping_calls_provision_twice_counterexample:
  "run_schedule quiet_world [0, 1, 0, 1] [Called ''s1'', Called ''s1''] empty_server =
     ([Settled (Inr (local_stagehand 0 ''s1'')), Settled (Inr (local_stagehand 1 ''s1''))],
      \<lparr>stagehandInstances = [(''s1'', local_stagehand 1 ''s1'')], allocated = 2,
       calls = [New (local_stagehand 0 ''s1''), Init (local_stagehand 0 ''s1''),
                New (local_stagehand 1 ''s1''), Init (local_stagehand 1 ''s1'')],
       console = [Log_created ''s1'', Log_created ''s1'']\<rparr>)
   \<and> local_stagehand 0 ''s1'' \<noteq> local_stagehand 1 ''s1''"
  by (simp add: getStagehandInstance_start_def quiet_world_def empty_server_def
      new_Stagehand_def perform_def local_stagehand_def Let_def)

lemma getStagehandInstance_hit:
  "map_of (stagehandInstances s) sid = Some h \<Longrightarrow> getStagehandInstance w sid s = (Inr h, s)"
  by (simp add: getStagehandInstance_def getStagehandInstance_start_def)

lemma acquire_sequentially_hits:
  "map_of (stagehandInstances s) sid = Some h \<Longrightarrow>
   acquire_sequentially w sid n s = (replicate n (Inr h), s)"
  by (induction n) (simp_all add: getStagehandInstance_hit)

lemma getStagehandInstance_miss_ok:
  assumes "map_of (stagehandInstances s) sid = None"
      and "respond w (calls s) (New (new_Stagehand w sid s)) = Inr v1"
      and "respond w (calls s @ [New (new_Stagehand w sid s)]) (Init (new_Stagehand w sid s)) = Inr v2"
  shows "getStagehandInstance w sid s =
           (Inr (new_Stagehand w sid s),
            s\<lparr>allocated := Suc (allocated s),
              calls := calls s @ [New (new_Stagehand w sid s), Init (new_Stagehand w sid s)],
              stagehandInstances := AList.update sid (new_Stagehand w sid s) (stagehandInstances s),
              console := console s @ [Log_created sid]\<rparr>)"
  using assms
  by (simp add: getStagehandInstance_def getStagehandInstance_start_def perform_def Let_def)

text \<open>
  Claim C3, amended. Calls for one identifier made one after the other, each finished
  before the next starts, provision once: when the identifier has no entry and the
  construction and the initialisation of the first call succeed, all \<open>n + 1\<close> calls return
  that first object, the only calls made to the library are its one \<open>new\<close> and its one
  \<open>init()\<close>, and the map holds it.
\<close>

theorem sequential_calls_provision_once:
  assumes "map_of (stagehandInstances s) sid = None"
      and "respond w (calls s) (New (new_Stagehand w sid s)) = Inr v1"
      and "respond w (calls s @ [New (new_Stagehand w sid s)]) (Init (new_Stagehand w sid s)) = Inr v2"
  shows "fst (acquire_sequentially w sid (Suc n) s) = replicate (Suc n) (Inr (new_Stagehand w sid s))
         \<and> calls (snd (acquire_sequentially w sid (Suc n) s))
             = calls s @ [New (new_Stagehand w sid s), Init (new_Stagehand w sid s)]
         \<and> map_of (stagehandInstances (snd (acquire_sequentially w sid (Suc n) s))) sid
             = Some (new_Stagehand w sid s)"
proof -
  let ?h = "new_Stagehand w sid s"
  let ?s1 = "s\<lparr>allocated := Suc (allocated s), calls := calls s @ [New ?h, Init ?h],
              stagehandInstances := AList.update sid ?h (stagehandInstances s),
              console := console s @ [Log_created sid]\<rparr>"
  have first: "getStagehandInstance w sid s = (Inr ?h, ?s1)"
    using assms by (rule getStagehandInstance_miss_ok)
  have "map_of (stagehandInstances ?s1) sid = Some ?h"
    by (simp add: update_conv')
  then have rest: "acquire_sequentially w sid n ?s1 = (replicate n (Inr ?h), ?s1)"
    by (rule acquire_sequentially_hits)
  show ?thesis
    using first rest by (simp add: update_conv')
qed

theorem sequential_calls_provision_once_witness:
  "fst (acquire_sequentially quiet_world ''s1'' (Suc 2) empty_server)
       = replicate (Suc 2) (Inr (new_Stagehand quiet_world ''s1'' empty_server))
   \<and> calls (snd (acquire_sequentially quiet_world ''s1'' (Suc 2) empty_server))
       = [New (local_stagehand 0 ''s1''), Init (local_stagehand 0 ''s1'')]"
  using sequential_calls_provision_once [of empty_server "''s1''" quiet_world "[]" "[]" 2]
  by (simp add: quiet_world_def empty_server_def new_Stagehand_def local_stagehand_def)

lemma resume_returns_its_object:
  "fst (getStagehandInstance_resume (Pending_init sid h r) s) = Inr h' \<Longrightarrow> h' = h"
  by (cases r) auto

text \<open>
  Claim C10. When the identifier has no entry and provisioning fails, because the
  construction of the object \<open>h\<close> throws or its \<open>init()\<close> does, the call throws that error
  and the map is as it was. A later call for the identifier starts over: the first thing it
  does is construct an object, which is not \<open>h\<close>, and it does not return \<open>h\<close>.
\<close>

theorem failed_provisioning_adds_no_entry:
  assumes "map_of (stagehandInstances s) sid = None"
      and "h = new_Stagehand w sid s"
      and "respond w (calls s) (New h) = Inl e
           \<or> (respond w (calls s) (New h) = Inr v \<and> respond w (calls s @ [New h]) (Init h) = Inl e)"
      and "s' = snd (getStagehandInstance w sid s)"
  shows "fst (getStagehandInstance w sid s) = Inl e
         \<and> stagehandInstances s' = stagehandInstances s
         \<and> calls (snd (getStagehandInstance_start w sid s')) ! length (calls s')
             = New (new_Stagehand w sid s')
         \<and> new_Stagehand w sid s' \<noteq> h
         \<and> fst (getStagehandInstance w sid s') \<noteq> Inr h"
proof -
  have r: "fst (getStagehandInstance w sid s) = Inl e"
    and m: "stagehandInstances s' = stagehandInstances s"
    and a: "allocated s' = Suc (allocated s)"
    using assms
    by (auto simp: getStagehandInstance_def getStagehandInstance_start_def perform_def Let_def)
  have none: "map_of (stagehandInstances s') sid = None" using m assms(1) by simp
  have fresh: "new_Stagehand w sid s' \<noteq> h"
    using a assms(2) by (simp add: new_Stagehand_def)
  have again: "calls (snd (getStagehandInstance_start w sid s')) ! length (calls s')
             = New (new_Stagehand w sid s')"
    using none
    by (auto simp: getStagehandInstance_start_def perform_def Let_def nth_append
        split: sum.splits prod.splits)
  have "fst (getStagehandInstance w sid s') = Inr h' \<Longrightarrow> h' = new_Stagehand w sid s'" for h'
    using none
    by (auto simp: getStagehandInstance_def getStagehandInstance_start_def perform_def Let_def
        split: sum.splits prod.splits dest: resume_returns_its_object)
  then have "fst (getStagehandInstance w sid s') \<noteq> Inr h" using fresh by blast
  then show ?thesis using r m fresh again by simp
qed

theorem failed_provisioning_witness:
  "fst (getStagehandInstance no_browser ''s1'' empty_server) = Inl (Exn ''launch failed'')
   \<and> stagehandInstances (snd (getStagehandInstance no_browser ''s1'' empty_server)) = []"
  using failed_provisioning_adds_no_entry
     [of empty_server "''s1''" "local_stagehand 0 ''s1''" no_browser "Exn ''launch failed''" "[]"
         "snd (getStagehandInstance no_browser ''s1'' empty_server)"]
  by (simp add: no_browser_def empty_server_def new_Stagehand_def local_stagehand_def)

section \<open>Properties of the step executor\<close>

lemma getStagehandInstance_tracks:
  "getStagehandInstance w sid s = (Inr h, s1) \<Longrightarrow> map_of (stagehandInstances s1) sid = Some h"
  by (auto simp: getStagehandInstance_def getStagehandInstance_start_def perform_def Let_def
      update_conv' split: option.splits sum.splits prod.splits
      elim!: getStagehandInstance_resume.elims)

lemma page_call_fails:
  "page_call w c ret s = (Inl e, s2) \<Longrightarrow>
   respond w (calls s) c = Inl e \<and> s2 = s\<lparr>calls := calls s @ [c]\<rparr>"
  by (auto simp: page_call_def perform_def split: sum.splits)

lemma switch_fails_one_call:
  assumes "method \<in> {GOTO, ACT, EXTRACT, OBSERVE, NAVBACK}"
      and "runStagehand_switch w sid h method instr s = (Inl e, s2)"
  shows "\<exists>c. respond w (calls s) c = Inl e \<and> s2 = s\<lparr>calls := calls s @ [c]\<rparr> \<and> c \<noteq> Close h"
  using assms by (auto dest!: page_call_fails)

text \<open>
  Claim C4 says that when the page call of \<open>GOTO\<close>, \<open>ACT\<close>, \<open>EXTRACT\<close>, \<open>OBSERVE\<close> or
  \<open>NAVBACK\<close> throws, \<open>runStagehand\<close> releases the session exactly once, leaving no entry
  behind, and throws the same error. When \<open>close()\<close> throws as well (the browser is gone),
  the error \<open>e\<close> of the page call is thrown again and \<open>close()\<close> has been called once, but
  the entry is still in the map: the release of the \<open>catch\<close> block is
  \<open>closeStagehandInstance\<close>, which keeps the entry when \<open>close()\<close> fails.
\<close>

theorem runStagehand_leaks_entry_when_close_fails:
  assumes "getStagehandInstance w sid s = (Inr h, s1)"
      and "method \<in> {GOTO, ACT, EXTRACT, OBSERVE, NAVBACK}"
      and "runStagehand_switch w sid h method instr s1 = (Inl e, s2)"
      and "respond w (calls s2) (Close h) = Inl e'"
  shows "runStagehand w sid method instr s =
           (Inl e, s2\<lparr>calls := calls s2 @ [Close h],
                      console := console s2 @ [Error_closing sid e']\<rparr>)
         \<and> map_of (stagehandInstances (snd (runStagehand w sid method instr s))) sid = Some h"
proof -
  have "map_of (stagehandInstances s1) sid = Some h"
    using assms(1) by (rule getStagehandInstance_tracks)
  moreover obtain c where "s2 = s1\<lparr>calls := calls s1 @ [c]\<rparr>"
    using switch_fails_one_call [OF assms(2,3)] by blast
  ultimately have tracked: "map_of (stagehandInstances s2) sid = Some h" by simp
  have "closeStagehandInstance w sid s2 =
          (Inr (), s2\<lparr>calls := calls s2 @ [Close h], console := console s2 @ [Error_closing sid e']\<rparr>)"
    using tracked assms(4) by (simp add: closeStagehandInstance_def perform_def)
  then show ?thesis
    using assms(1,3) tracked by (simp add: runStagehand_def)
qed

theorem runStagehand_leaks_entry_witness:
  "runStagehand crashed_browser ''s1'' GOTO (Some ''https://example.com'') (tracking ''s1'') =
     (Inl (Exn ''Target closed''),
      \<lparr>stagehandInstances = [(''s1'', local_stagehand 0 ''s1'')], allocated = 1,
       calls = [New (local_stagehand 0 ''s1''), Init (local_stagehand 0 ''s1''),
                Page_goto (local_stagehand 0 ''s1'') (Some ''https://example.com''),
                Close (local_stagehand 0 ''s1'')],
       console = [Log_created ''s1'', Error_closing ''s1'' (Exn ''Target closed'')]\<rparr>)"
  using runStagehand_leaks_entry_when_close_fails
    [of crashed_browser "''s1''" "tracking ''s1''" "local_stagehand 0 ''s1''" "tracking ''s1''" GOTO
        "Some ''https://example.com''" "Exn ''Target closed''"
        "(tracking ''s1'')\<lparr>calls := calls (tracking ''s1'') @
            [Page_goto (local_stagehand 0 ''s1'') (Some ''https://example.com'')]\<rparr>"
        "Exn ''Target closed''"]
  by (simp add: tracking_def crashed_browser_def getStagehandInstance_def
      getStagehandInstance_start_def page_call_def perform_def)

text \<open>
  When \<open>close()\<close> succeeds the claim holds as it is written: the error of the page call is
  thrown again, the page call was made once and is followed by the one \<open>close()\<close>, and the
  entry is gone.
\<close>

lemma runStagehand_releases_once_when_close_succeeds:
  assumes "getStagehandInstance w sid s = (Inr h, s1)"
      and "method \<in> {GOTO, ACT, EXTRACT, OBSERVE, NAVBACK}"
      and "runStagehand_switch w sid h method instr s1 = (Inl e, s2)"
      and "respond w (calls s2) (Close h) = Inr v"
  shows "fst (runStagehand w sid method instr s) = Inl e"
    and "calls (snd (runStagehand w sid method instr s)) = calls s2 @ [Close h]"
    and "length (calls s2) = Suc (length (calls s1))"
    and "map_of (stagehandInstances (snd (runStagehand w sid method instr s))) sid = None"
proof -
  have "map_of (stagehandInstances s1) sid = Some h"
    using assms(1) by (rule getStagehandInstance_tracks)
  moreover obtain c where c: "s2 = s1\<lparr>calls := calls s1 @ [c]\<rparr>"
    using switch_fails_one_call [OF assms(2,3)] by blast
  ultimately have tracked: "map_of (stagehandInstances s2) sid = Some h" by simp
  have cl: "closeStagehandInstance w sid s2 =
          (Inr (), s2\<lparr>calls := calls s2 @ [Close h],
                      stagehandInstances := AList.delete sid (stagehandInstances s2),
                      console := console s2 @ [Log_closed sid]\<rparr>)"
    using tracked assms(4) by (simp add: closeStagehandInstance_def perform_def)
  show "fst (runStagehand w sid method instr s) = Inl e"
    using assms(1,3) cl by (simp add: runStagehand_def)
  show "calls (snd (runStagehand w sid method instr s)) = calls s2 @ [Close h]"
    using assms(1,3) cl by (simp add: runStagehand_def)
  show "length (calls s2) = Suc (length (calls s1))" using c by simp
  show "map_of (stagehandInstances (snd (runStagehand w sid method instr s))) sid = None"
    using assms(1,3) cl by (simp add: runStagehand_def delete_conv')
qed

text \<open>
  Claim C7. A request to execute a \<open>USER_INPUT\<close> step leaves the server exactly as it
  was, whatever session identifier it gives, so no call at all is made to the browser. For a
  session identifier that is not empty (an empty one is answered as missing before the step
  is looked at) the request is answered at once with success, \<open>done: false\<close> and the
  step's instruction as the message, or the default message when the instruction is empty.
  \<open>runStagehand\<close> is not entered on this path. Its own \<open>USER_INPUT\<close> case makes no call
  either and returns the same message, so that a direct call of \<open>runStagehand\<close> leaves the
  server as fetching the instance left it.
\<close>

theorem user_input_step_touches_nothing:
  assumes "tool step = USER_INPUT"
  shows "snd (POST_agent w \<lparr>body_goal = g, body_sessionId = given, body_previousSteps = p,
                            body_action = Some ''EXECUTE_STEP'', body_step = Some step\<rparr> s) = s
         \<and> (sid \<noteq> [] \<longrightarrow>
              POST_agent w \<lparr>body_goal = g, body_sessionId = Some sid, body_previousSteps = p,
                            body_action = Some ''EXECUTE_STEP'', body_step = Some step\<rparr> s
                = (User_input_ok (if instruction step = [] then default_user_input_message
                                  else instruction step), s))
         \<and> runStagehand_switch w sid h (tool step) instr s
           = (Inr (Waiting_for_user (case instr of None \<Rightarrow> default_user_input_message
                                      | Some i \<Rightarrow> if i = [] then default_user_input_message else i)), s)
         \<and> snd (runStagehand w sid (tool step) instr s) = snd (getStagehandInstance w sid s)"
proof -
  have a: "POST_agent w \<lparr>body_goal = g, body_sessionId = Some sid, body_previousSteps = p,
                       body_action = Some ''EXECUTE_STEP'', body_step = Some step\<rparr> s
           = (User_input_ok (if instruction step = [] then default_user_input_message
                             else instruction step), s)"
    if "sid \<noteq> []"
    using assms that by (simp add: POST_agent_def POST_EXECUTE_STEP_def)
  have u: "snd (POST_agent w \<lparr>body_goal = g, body_sessionId = given, body_previousSteps = p,
                            body_action = Some ''EXECUTE_STEP'', body_step = Some step\<rparr> s) = s"
    using assms by (cases given) (simp_all add: POST_agent_def POST_EXECUTE_STEP_def)
  have b: "runStagehand_switch w sid h (tool step) instr s
           = (Inr (Waiting_for_user (case instr of None \<Rightarrow> default_user_input_message
                                      | Some i \<Rightarrow> if i = [] then default_user_input_message else i)), s)"
    using assms by (cases instr) simp_all
  have c: "snd (runStagehand w sid (tool step) instr s) = snd (getStagehandInstance w sid s)"
    using assms by (simp add: runStagehand_def split: prod.splits sum.splits)
  show ?thesis using a u b c by blast
qed

theorem user_input_step_witness:
  "POST_agent quiet_world
      \<lparr>body_goal = None, body_sessionId = Some ''s1'', body_previousSteps = None,
       body_action = Some ''EXECUTE_STEP'', body_step = Some captcha_step\<rparr>
      (tracking ''s1'')
    = (User_input_ok ''solve the captcha'', tracking ''s1'')"
  using user_input_step_touches_nothing
     [where step = captcha_step and sid = "''s1''" and w = quiet_world and g = None
        and p = None and s = "tracking ''s1''"]
  by (simp add: captcha_step_def)

text \<open>The first step the server answers a start request with is always a \<open>GOTO\<close>.\<close>

lemma POST_START_answers_GOTO:
  "POST_START w g sid s = (Start_ok first steps, s') \<Longrightarrow> tool first = GOTO \<and> steps = [first]"
  by (auto simp: POST_START_def request_failed_def Let_def
      split: option.splits if_splits prod.splits sum.splits)

section \<open>Properties of the agent loop\<close>

lemma tool_numbered [simp]: "tool (numbered r n) = tool r"
  by (simp add: numbered_def)

lemma render_fetches: "\<exists>rest. fetches (render c) = fetches c @ rest"
  by (simp add: render_def steps_effect_def)

lemma render_agent_steps [simp]: "agent_steps (render c) = agent_steps c"
  by (simp add: render_def steps_effect_def)

lemma render_ui [simp]: "ui_steps (render c) = ui_steps c" "ui_sessionId (render c) = ui_sessionId c"
  "effect_due (render c) = False" "isLoading (render c) = isLoading c"
  "waitingForUserInput (render c) = waitingForUserInput c"
  by (simp_all add: render_def steps_effect_def)

lemma fetch_simps [simp]: "agent_steps (fetch r c) = agent_steps c"
  "ui_steps (fetch r c) = ui_steps c" "ui_sessionId (fetch r c) = ui_sessionId c"
  "effect_due (fetch r c) = False"
  by (simp_all add: fetch_def)

lemma fetch_fetches: "\<exists>rest. fetches (fetch r c) = fetches c @ r # rest"
  by (simp add: fetch_def render_def steps_effect_def)

lemma fetch_settled: "\<not> effect_due c \<Longrightarrow> fetches (fetch r c) = fetches c @ [r]"
  by (simp add: fetch_def render_def)

lemma render_close:
  "effect_due c \<Longrightarrow> ui_steps c \<noteq> [] \<Longrightarrow> tool (last (ui_steps c)) = CLOSE \<Longrightarrow>
   render c = c\<lparr>effect_due := False, isAgentFinished := True,
               fetches := fetches c @ [Fetch_DELETE_session (ui_sessionId c)]\<rparr>"
  by (simp add: render_def steps_effect_def)

lemma agent_loop_after_first_fetch:
  assumes "\<And>d. \<exists>rest. fetches (snd (agent_loop n backend goal sid d)) = fetches d @ rest"
  shows "\<exists>rest. fetches (snd (agent_loop (Suc n) backend goal sid c))
           = fetches (fetch (Fetch_GET_NEXT_STEP goal sid (agent_steps c)) c) @ rest"
proof -
  let ?c1 = "fetch (Fetch_GET_NEXT_STEP goal sid (agent_steps c)) c"
  let ?nd = "next_response backend (fetches ?c1)"
  let ?c2 = "set_steps (agent_steps ?c1 @ [numbered (next_result ?nd) (length (agent_steps ?c1) + 1)]) ?c1"
  let ?c3 = "fetch (Fetch_EXECUTE_STEP sid (next_result ?nd)) ?c2"
  let ?w = "?c3\<lparr>waitingForUserInput := True,
        userInputMessage := Some (js_or (execute_message (execute_response backend (fetches ?c3)))
           default_user_input_message)\<rparr>"
  have b0: "fetches ?c2 = fetches ?c1" by (simp add: set_steps_def)
  obtain b where b: "fetches ?c3 = fetches ?c2 @ b" using fetch_fetches by blast
  obtain r where r: "fetches (render ?w) = fetches ?c3 @ r"
    using render_fetches [of ?w] by auto
  obtain t where t: "fetches (snd (agent_loop n backend goal sid ?c3)) = fetches ?c3 @ t"
    using assms by blast
  show ?thesis
    using b0 b r t by (simp add: Let_def)
qed

lemma agent_loop_extends:
  "\<exists>rest. fetches (snd (agent_loop n backend goal sid c)) = fetches c @ rest"
proof (induction n arbitrary: c)
  case 0
  then show ?case by simp
next
  case (Suc n)
  obtain a where "fetches (fetch (Fetch_GET_NEXT_STEP goal sid (agent_steps c)) c) = fetches c @ a"
    using fetch_fetches by blast
  moreover obtain b where "fetches (snd (agent_loop (Suc n) backend goal sid c))
           = fetches (fetch (Fetch_GET_NEXT_STEP goal sid (agent_steps c)) c) @ b"
    using agent_loop_after_first_fetch [of n backend goal sid c] Suc.IH by blast
  ultimately show ?case by simp
qed

lemma finish_extends: "\<exists>rest. fetches (snd (finish (e, c))) = fetches c @ rest"
  using render_fetches [of "c\<lparr>isLoading := False\<rparr>"] by (cases e) auto

lemma agent_loop_starts_with_decision:
  "\<exists>rest. fetches (snd (finish (agent_loop (Suc n) backend goal sid c)))
     = fetches c @ Fetch_GET_NEXT_STEP goal sid (agent_steps c) # rest"
proof -
  obtain a where a: "fetches (fetch (Fetch_GET_NEXT_STEP goal sid (agent_steps c)) c)
      = fetches c @ Fetch_GET_NEXT_STEP goal sid (agent_steps c) # a"
    using fetch_fetches by blast
  obtain b where b: "fetches (snd (agent_loop (Suc n) backend goal sid c))
           = fetches (fetch (Fetch_GET_NEXT_STEP goal sid (agent_steps c)) c) @ b"
    using agent_loop_after_first_fetch [of n backend goal sid c] agent_loop_extends by blast
  obtain e c' where ec: "agent_loop (Suc n) backend goal sid c = (e, c')"
    by (cases "agent_loop (Suc n) backend goal sid c")
  obtain f where f: "fetches (snd (finish (e, c'))) = fetches c' @ f"
    using finish_extends by blast
  show ?thesis using a b ec f by simp
qed





text \<open>
  Claim C8. When the decided step is a \<open>USER_INPUT\<close> step and its execute request is
  answered with success, the loop stops there, waiting: whatever number of iterations it is
  allowed, the requests sent are the one next-step request and the one execute request and
  nothing after them, the history is the old one with the step appended, and the waiting
  flag is set. The loop goes on only through \<open>continueAfterUserInput\<close>. When the execute
  answer was not \<open>done\<close> (the server never says \<open>done\<close> for a \<open>USER_INPUT\<close> step), resuming
  runs the loop from the same state with only the waiting flag cleared: the history is
  unchanged and the first request sent is the next-step request carrying that history.
\<close>

theorem user_input_suspends_until_resumed:
  assumes "asked = fetch (Fetch_GET_NEXT_STEP goal sid (agent_steps c)) c"
      and "d = next_response backend (fetches asked)"
      and "next_success d" and "\<not> next_done d" and "tool (next_result d) = USER_INPUT"
      and "history = agent_steps c @ [numbered (next_result d) (length (agent_steps c) + 1)]"
      and "executed = fetch (Fetch_EXECUTE_STEP sid (next_result d)) (set_steps history asked)"
      and "x = execute_response backend (fetches executed)"
      and "execute_success x"
      and "c' = executed\<lparr>waitingForUserInput := True,
                    userInputMessage := Some (js_or (execute_message x) default_user_input_message)\<rparr>"
  shows "agent_loop (Suc n) backend goal sid c = (Suspend (execute_done x), c')
         \<and> finish (agent_loop (Suc n) backend goal sid c) = (Suspend (execute_done x), c')
         \<and> fetches c' = fetches asked @ [Fetch_EXECUTE_STEP sid (next_result d)]
         \<and> agent_steps c' = history
         \<and> waitingForUserInput c'
         \<and> (\<not> execute_done x \<longrightarrow>
              continueAfterUserInput m backend goal sid (execute_done x) c'
                = finish (agent_loop m backend goal sid (c'\<lparr>waitingForUserInput := False\<rparr>))
              \<and> agent_steps (c'\<lparr>waitingForUserInput := False\<rparr>) = history
              \<and> (\<exists>rest. fetches (snd (continueAfterUserInput (Suc m) backend goal sid (execute_done x) c'))
                          = fetches c' @ Fetch_GET_NEXT_STEP goal sid history # rest))"
proof -
  let ?c2 = "set_steps history asked"
  have t: "tool (last (ui_steps ?c2)) = USER_INPUT"
    using assms(5,6) by (simp add: set_steps_def)
  have f3: "fetches executed = fetches asked @ [Fetch_EXECUTE_STEP sid (next_result d)]"
    and e3: "\<not> effect_due executed" and a3: "agent_steps executed = history"
    using assms(7) t by (simp_all add: fetch_def render_def steps_effect_def set_steps_def)
  have r: "render c' = c'"
    using e3 assms(10) by (simp add: render_def)
  have loop: "agent_loop (Suc n) backend goal sid c = (Suspend (execute_done x), c')"
    using assms r by (simp add: Let_def)
  have st: "agent_steps c' = history" using a3 assms(10) by simp
  have res: "continueAfterUserInput m backend goal sid (execute_done x) c'
                = finish (agent_loop m backend goal sid (c'\<lparr>waitingForUserInput := False\<rparr>))"
    if "\<not> execute_done x" for m
    using that by (simp add: continueAfterUserInput_def)
  have nxt: "\<exists>rest. fetches (snd (continueAfterUserInput (Suc m) backend goal sid (execute_done x) c'))
                          = fetches c' @ Fetch_GET_NEXT_STEP goal sid history # rest"
    if "\<not> execute_done x"
    using res [OF that, of "Suc m"] st
      agent_loop_starts_with_decision [of m backend goal sid "c'\<lparr>waitingForUserInput := False\<rparr>"]
    by simp
  show ?thesis
    using loop f3 st res nxt assms(10) by auto
qed


theorem user_input_suspends_witness:
  "fst (agent_loop (Suc 5) captcha_api ''price of stock X'' ''s1'' started_client) = Suspend False
   \<and> fetches (snd (agent_loop (Suc 5) captcha_api ''price of stock X'' ''s1'' started_client))
       = [Fetch_POST_session, Fetch_START ''price of stock X'' ''s1'',
          Fetch_GET_NEXT_STEP ''price of stock X'' ''s1'' [numbered goto_step 1],
          Fetch_EXECUTE_STEP ''s1'' captcha_step]
   \<and> (\<exists>rest. fetches (snd (continueAfterUserInput (Suc 0) captcha_api ''price of stock X'' ''s1'' False
                              (snd (agent_loop (Suc 5) captcha_api ''price of stock X'' ''s1''
                                      started_client))))
          = [Fetch_POST_session, Fetch_START ''price of stock X'' ''s1'',
             Fetch_GET_NEXT_STEP ''price of stock X'' ''s1'' [numbered goto_step 1],
             Fetch_EXECUTE_STEP ''s1'' captcha_step]
            @ Fetch_GET_NEXT_STEP ''price of stock X'' ''s1''
                [numbered goto_step 1, numbered captcha_step 2] # rest)"
proof -
  let ?goal = "''price of stock X''"
  let ?asked = "fetch (Fetch_GET_NEXT_STEP ?goal ''s1'' (agent_steps started_client)) started_client"
  let ?d = "next_response captcha_api (fetches ?asked)"
  let ?history = "agent_steps started_client
                    @ [numbered (next_result ?d) (length (agent_steps started_client) + 1)]"
  let ?executed = "fetch (Fetch_EXECUTE_STEP ''s1'' (next_result ?d)) (set_steps ?history ?asked)"
  let ?x = "execute_response captcha_api (fetches ?executed)"
  let ?c' = "?executed\<lparr>waitingForUserInput := True,
               userInputMessage := Some (js_or (execute_message ?x) default_user_input_message)\<rparr>"
  have a: "fetches ?asked = [Fetch_POST_session, Fetch_START ?goal ''s1'',
          Fetch_GET_NEXT_STEP ?goal ''s1'' [numbered goto_step 1]]"
    by (simp add: started_client_def fetch_def render_def steps_effect_def goto_step_def)
  have d: "?d = \<lparr>next_success = True, next_result = captcha_step, next_done = False\<rparr>"
    unfolding a by (simp add: captcha_api_def)
  have x: "?x = \<lparr>execute_success = True, execute_done = False,
                  execute_message = Some ''solve the captcha''\<rparr>"
    by (simp add: captcha_api_def)
  have h3: "next_success ?d" and h4: "\<not> next_done ?d" and h5: "tool (next_result ?d) = USER_INPUT"
    unfolding d by (simp_all add: captcha_step_def)
  have h9: "execute_success ?x" unfolding x by simp
  note T = user_input_suspends_until_resumed
    [where c = started_client and goal = ?goal and sid = "''s1''" and backend = captcha_api
       and n = 5 and m = 0 and asked = ?asked and d = ?d and history = ?history
       and executed = ?executed and x = ?x and c' = ?c',
     OF refl refl h3 h4 h5 refl refl refl h9 refl]
  have R1: "fst (agent_loop (Suc 5) captcha_api ?goal ''s1'' started_client) = Suspend False"
    unfolding T [THEN conjunct1] x by simp
  have "fetches (snd (agent_loop (Suc 5) captcha_api ?goal ''s1'' started_client))
          = fetches ?asked @ [Fetch_EXECUTE_STEP ''s1'' (next_result ?d)]"
    unfolding T [THEN conjunct1] using T [THEN conjunct2, THEN conjunct2, THEN conjunct1]
    by (simp del: agent_loop.simps)
  then have R2: "fetches (snd (agent_loop (Suc 5) captcha_api ?goal ''s1'' started_client))
       = [Fetch_POST_session, Fetch_START ?goal ''s1'',
          Fetch_GET_NEXT_STEP ?goal ''s1'' [numbered goto_step 1],
          Fetch_EXECUTE_STEP ''s1'' captcha_step]"
    unfolding a using d [unfolded a] by (simp del: agent_loop.simps)
  have nd: "\<not> execute_done ?x" unfolding x by simp
  have hist: "?history = [numbered goto_step 1, numbered captcha_step 2]"
    unfolding d by (simp add: started_client_def numeral_2_eq_2)
  have c': "snd (agent_loop (Suc 5) captcha_api ?goal ''s1'' started_client) = ?c'"
    unfolding T [THEN conjunct1] by simp
  have xd: "execute_done ?x = False" unfolding x by simp
  obtain rest where F: "fetches (snd (continueAfterUserInput (Suc 0) captcha_api ?goal ''s1''
                        (execute_done ?x) ?c'))
          = fetches ?c' @ Fetch_GET_NEXT_STEP ?goal ''s1'' ?history # rest"
    using T [THEN conjunct2, THEN conjunct2, THEN conjunct2, THEN conjunct2, THEN conjunct2,
             THEN mp, OF nd] by blast
  note G = F [folded c', unfolded xd, unfolded R2, unfolded hist]
  have R3: "\<exists>rest. fetches (snd (continueAfterUserInput (Suc 0) captcha_api ?goal ''s1'' False
                              (snd (agent_loop (Suc 5) captcha_api ?goal ''s1'' started_client))))
          = [Fetch_POST_session, Fetch_START ?goal ''s1'',
             Fetch_GET_NEXT_STEP ?goal ''s1'' [numbered goto_step 1],
             Fetch_EXECUTE_STEP ''s1'' captcha_step]
            @ Fetch_GET_NEXT_STEP ?goal ''s1''
                [numbered goto_step 1, numbered captcha_step 2] # rest"
    using G by blast
  show ?thesis using R1 R2 R3 by blast
qed

end
